theory Spec2Isabelle
  imports Main "HOL-Library.Word"
begin

section \<open>Scanned images of the sane package (image.go)\<close>

text \<open>
  The development embeds \<^verbatim>\<open>image.go\<close>: the \<^verbatim>\<open>Image\<close> type with its
  \<^verbatim>\<open>Bounds\<close>, \<^verbatim>\<open>ColorModel\<close> and \<^verbatim>\<open>At\<close> methods, the frame
  assembler \<^verbatim>\<open>loadImage\<close> and the three acquisition methods
  \<^verbatim>\<open>ReadImage\<close>, \<^verbatim>\<open>ReadAvailableImages\<close> and \<^verbatim>\<open>ContinuousRead\<close>.
  The types \<^verbatim>\<open>Frame\<close>, \<^verbatim>\<open>Format\<close>, \<^verbatim>\<open>Conn\<close> and the error values are
  declared in another file of the package; they are modelled below as far as
  \<^verbatim>\<open>image.go\<close> uses them.
\<close>

subsection \<open>Frames, errors and colours\<close>

text \<open>
  Modelled from the spec: the type \<^verbatim>\<open>Format\<close> (a Go integer type) and its five constants
  are declared outside \<^verbatim>\<open>image.go\<close>. The five recognised formats are constructors of their
  own; \<open>FrameOther n\<close> stands for any other value \<open>n\<close> of the integer type.
\<close>

datatype Format = FrameGray | FrameRgb | FrameRed | FrameGreen | FrameBlue | FrameOther int

text \<open>
  Modelled from the spec: the error values of the package are declared outside
  \<^verbatim>\<open>image.go\<close>; the list is the one of the spec's section 7 and of \<^verbatim>\<open>TestReadError\<close>.
  \<open>UnknownFrameType fmt\<close> is the error that \<^verbatim>\<open>loadImage\<close> builds with
  \<^verbatim>\<open>fmt.Errorf("unknown frame type %d", f.Format)\<close>: a fresh error value, equal to none of
  the package's error variables. \<open>ErrOther s\<close> is any other error, for instance one that
  a page handler returns.
\<close>

datatype error =
    ErrUnsupported | ErrCancelled | ErrBusy | ErrInvalid | ErrJammed | ErrEmpty
  | ErrCoverOpen | ErrIo | ErrNoMem | ErrDenied
  | UnknownFrameType Format
  | ErrOther string

text \<open>
  Modelled from the spec: the struct \<^verbatim>\<open>Frame\<close> and its method \<^verbatim>\<open>Frame.At\<close> are declared
  outside \<^verbatim>\<open>image.go\<close>. The fields are the ones \<^verbatim>\<open>image.go\<close> reads (Go \<^verbatim>\<open>int\<close>
  fields, only compared here, are integers). The raw data are represented by the
  function \<open>samples\<close>: access by (x, y, channel index) returns a sample widened to a
  16-bit unsigned value regardless of depth.
\<close>

record Frame =
  Format :: Format
  Width :: int
  Height :: int
  Depth :: int
  IsLast :: bool
  samples :: "int \<Rightarrow> int \<Rightarrow> int \<Rightarrow> 16 word"

definition Frame_At :: "Frame \<Rightarrow> int \<Rightarrow> int \<Rightarrow> int \<Rightarrow> 16 word" where
  "Frame_At f x y ch = samples f x y ch"

text \<open>
  \<^verbatim>\<open>type Image struct { fs [3]*Frame }\<close>: an array of three frame pointers, each of which
  may be nil. The three slots are the fields \<open>fs0\<close>, \<open>fs1\<close>, \<open>fs2\<close>; \<open>None\<close> is nil.
\<close>

record Image =
  fs0 :: "Frame option"
  fs1 :: "Frame option"
  fs2 :: "Frame option"

text \<open>A method that reads a field through a nil pointer panics.\<close>

datatype panic = NilDereference

text \<open>The colour values and colour models of Go's \<^verbatim>\<open>image/color\<close> that the code uses.\<close>

datatype Color =
    Gray "8 word"
  | Gray16 "16 word"
  | RGBA "8 word" "8 word" "8 word" "8 word"
  | RGBA64 "16 word" "16 word" "16 word" "16 word"

datatype Model = GrayModel | Gray16Model | RGBAModel | RGBA64Model

definition opaque8 :: "8 word" where
  "opaque8 = 0xff"

definition opaque16 :: "16 word" where
  "opaque16 = 0xffff"

record Point =
  X :: int
  Y :: int

record Rectangle =
  Min_pt :: Point
  Max_pt :: Point

text \<open>Go's \<^verbatim>\<open>image.Rect\<close>: the rectangle with the given corners, swapped where needed.\<close>

definition Rect :: "int \<Rightarrow> int \<Rightarrow> int \<Rightarrow> int \<Rightarrow> Rectangle" where
  "Rect x0 y0 x1 y1 =
     \<lparr>Min_pt = \<lparr>X = min x0 x1, Y = min y0 y1\<rparr>, Max_pt = \<lparr>X = max x0 x1, Y = max y0 y1\<rparr>\<rparr>"

subsection \<open>The methods of Image\<close>

definition Bounds :: "Image \<Rightarrow> panic + Rectangle" where
  "Bounds m =
     (case fs0 m of
        None \<Rightarrow> Inl NilDereference
      | Some f \<Rightarrow> Inr (Rect 0 0 (Width f) (Height f)))"

definition ColorModel :: "Image \<Rightarrow> panic + Model" where
  "ColorModel m =
     (case fs0 m of
        None \<Rightarrow> Inl NilDereference
      | Some f \<Rightarrow>
          if Depth f \<noteq> 16 \<and> Format f = FrameGray then Inr GrayModel
          else if Depth f = 16 \<and> Format f = FrameGray then Inr Gray16Model
          else if Depth f \<noteq> 16 \<and> Format f \<noteq> FrameGray then Inr RGBAModel
          else if Depth f = 16 \<and> Format f \<noteq> FrameGray then Inr RGBA64Model
          else Inr RGBAModel)"

text \<open>
  \<^verbatim>\<open>At\<close>. The bounds test \<^verbatim>\<open>x < 0 || x >= m.fs[0].Width || ...\<close> is evaluated from left
  to right and stops at the first true operand, so slot 0 is read only when
  \<open>0 \<le> x\<close>. In the non-interleaved branch the samples are read in the order red, green,
  blue. \<^verbatim>\<open>Frame.At\<close> reads the fields of its frame, so a call of it on a nil slot
  panics.
\<close>

definition At :: "Image \<Rightarrow> int \<Rightarrow> int \<Rightarrow> panic + Color" where
  "At m x y =
     (if x < 0 then Inr (RGBA 0 0 0 0)
      else case fs0 m of
        None \<Rightarrow> Inl NilDereference
      | Some f0 \<Rightarrow>
          if x \<ge> Width f0 \<or> y < 0 \<or> y \<ge> Height f0 then Inr (RGBA 0 0 0 0)
          else if Format f0 = FrameGray then
            (if Depth f0 = 1 then Inr (Gray (ucast (0xFF * Frame_At f0 x y 0)))
             else if Depth f0 = 8 then Inr (Gray (ucast (Frame_At f0 x y 0)))
             else if Depth f0 = 16 then Inr (Gray16 (Frame_At f0 x y 0))
             else Inr (RGBA 0 0 0 0))
          else
            (case
               (if Format f0 = FrameRgb then
                  Inr (Frame_At f0 x y 0, Frame_At f0 x y 1, Frame_At f0 x y 2)
                else
                  (case fs1 m of
                     None \<Rightarrow> Inl NilDereference
                   | Some f1 \<Rightarrow>
                       (case fs2 m of
                          None \<Rightarrow> Inl NilDereference
                        | Some f2 \<Rightarrow>
                            Inr (Frame_At f0 x y 0, Frame_At f1 x y 0, Frame_At f2 x y 0))))
             of
               Inl p \<Rightarrow> Inl p
             | Inr (r, g, b) \<Rightarrow>
                 if Depth f0 = 1 then
                   Inr (RGBA (ucast (0xFF * r)) (ucast (0xFF * g)) (ucast (0xFF * b)) opaque8)
                 else if Depth f0 = 8 then
                   Inr (RGBA (ucast r) (ucast g) (ucast b) opaque8)
                 else if Depth f0 = 16 then
                   Inr (RGBA64 r g b opaque16)
                 else Inr (RGBA 0 0 0 0)))"

subsection \<open>The connection\<close>

text \<open>
  Modelled from the spec: the type \<^verbatim>\<open>Conn\<close> with its methods \<^verbatim>\<open>ReadFrame\<close> and
  \<^verbatim>\<open>Cancel\<close> is declared outside \<^verbatim>\<open>image.go\<close>; the spec treats it as a black box
  exposing \<^verbatim>\<open>ReadFrame() -> Frame | Error\<close> and \<^verbatim>\<open>Cancel()\<close>. The state of a connection
  is the stream of the outcomes of its \<^verbatim>\<open>ReadFrame\<close> calls (\<open>frames c i\<close> is the outcome
  of call number \<open>i\<close>), the number of calls made so far, and the number of
  \<^verbatim>\<open>Cancel\<close> calls made so far.
\<close>

record Conn =
  frames :: "nat \<Rightarrow> error + Frame"
  pos :: nat
  cancels :: nat

definition ReadFrame :: "Conn \<Rightarrow> (error + Frame) \<times> Conn" where
  "ReadFrame c = (frames c (pos c), c\<lparr>pos := pos c + 1\<rparr>)"

definition Cancel :: "Conn \<Rightarrow> Conn" where
  "Cancel c = c\<lparr>cancels := cancels c + 1\<rparr>"

subsection \<open>Assembling an image from frames\<close>

definition emptyImage :: Image where
  "emptyImage = \<lparr>fs0 = None, fs1 = None, fs2 = None\<rparr>"

text \<open>
  The \<^verbatim>\<open>switch f.Format\<close> of \<^verbatim>\<open>loadImage\<close>: the frame goes into the slot of its
  format, and any other format is the error return of the \<^verbatim>\<open>default\<close> case.
\<close>

definition storeFrame :: "Image \<Rightarrow> Frame \<Rightarrow> error + Image" where
  "storeFrame m f =
     (case Format f of
        FrameGray \<Rightarrow> Inr (m\<lparr>fs0 := Some f\<rparr>)
      | FrameRgb \<Rightarrow> Inr (m\<lparr>fs0 := Some f\<rparr>)
      | FrameRed \<Rightarrow> Inr (m\<lparr>fs0 := Some f\<rparr>)
      | FrameGreen \<Rightarrow> Inr (m\<lparr>fs1 := Some f\<rparr>)
      | FrameBlue \<Rightarrow> Inr (m\<lparr>fs2 := Some f\<rparr>)
      | FrameOther n \<Rightarrow> Inl (UnknownFrameType (Format f)))"

text \<open>
  The \<^verbatim>\<open>for\<close> loop of \<^verbatim>\<open>loadImage\<close>, with the image under construction and the
  connection as its state. The loop has no bound: where it never returns the value is
  \<open>None\<close>.
\<close>

partial_function (option) loadImage_loop ::
    "Image \<Rightarrow> Conn \<Rightarrow> ((error + Image) \<times> Conn) option" where
  "loadImage_loop m c =
     (case ReadFrame c of
        (Inl err, c') \<Rightarrow> Some (Inl err, c')
      | (Inr f, c') \<Rightarrow>
          (case storeFrame m f of
             Inl err \<Rightarrow> Some (Inl err, c')
           | Inr m' \<Rightarrow> if IsLast f then Some (Inr m', c') else loadImage_loop m' c'))"

definition loadImage :: "Conn \<Rightarrow> ((error + Image) \<times> Conn) option" where
  "loadImage c = loadImage_loop emptyImage c"

subsection \<open>The acquisition methods\<close>

text \<open>In each method the deferred \<^verbatim>\<open>c.Cancel()\<close> runs when the method returns.\<close>

definition ReadImage :: "Conn \<Rightarrow> ((error + Image) \<times> Conn) option" where
  "ReadImage c =
     (case loadImage c of
        None \<Rightarrow> None
      | Some (r, c') \<Rightarrow> Some (r, Cancel c'))"

partial_function (option) ReadAvailableImages_loop ::
    "Image list \<Rightarrow> Conn \<Rightarrow> ((error + Image list) \<times> Conn) option" where
  "ReadAvailableImages_loop images c =
     (case loadImage c of
        None \<Rightarrow> None
      | Some (Inl err, c') \<Rightarrow>
          if err = ErrEmpty \<and> length images > 0 then Some (Inr images, c')
          else Some (Inl err, c')
      | Some (Inr m, c') \<Rightarrow> ReadAvailableImages_loop (images @ [m]) c')"

definition ReadAvailableImages :: "Conn \<Rightarrow> ((error + Image list) \<times> Conn) option" where
  "ReadAvailableImages c =
     (case ReadAvailableImages_loop [] c of
        None \<Rightarrow> None
      | Some (r, c') \<Rightarrow> Some (r, Cancel c'))"

text \<open>
  The page handler \<^verbatim>\<open>process\<close> is a Go closure: it returns an error or nil and may
  change a state of its own, which is passed through (\<open>'h\<close>). The result of
  \<^verbatim>\<open>ContinuousRead\<close> is the returned error (\<open>None\<close> is nil), the handler's state and the
  connection.
\<close>

partial_function (option) ContinuousRead_loop ::
    "('h \<Rightarrow> Image \<Rightarrow> error option \<times> 'h) \<Rightarrow> Image \<Rightarrow> 'h \<Rightarrow> Conn
       \<Rightarrow> (error option \<times> 'h \<times> Conn) option" where
  "ContinuousRead_loop process m h c =
     (case process h m of
        (Some err, h') \<Rightarrow> Some (Some err, h', c)
      | (None, h') \<Rightarrow>
          (case loadImage c of
             None \<Rightarrow> None
           | Some (Inl err, c') \<Rightarrow>
               if err = ErrEmpty then Some (None, h', c') else Some (Some err, h', c')
           | Some (Inr m', c') \<Rightarrow> ContinuousRead_loop process m' h' c'))"

definition ContinuousRead ::
    "('h \<Rightarrow> Image \<Rightarrow> error option \<times> 'h) \<Rightarrow> 'h \<Rightarrow> Conn
       \<Rightarrow> (error option \<times> 'h \<times> Conn) option" where
  "ContinuousRead process h c =
     (case loadImage c of
        None \<Rightarrow> None
      | Some (Inl err, c') \<Rightarrow> Some (Some err, h, Cancel c')
      | Some (Inr m, c') \<Rightarrow>
          (case ContinuousRead_loop process m h c' of
             None \<Rightarrow> None
           | Some (r, h', c'') \<Rightarrow> Some (r, h', Cancel c'')))"

subsection \<open>Notions of the specification\<close>

text \<open>A frame is recognised when its format is one of the five known values.\<close>

definition recognized :: "Frame \<Rightarrow> bool" where
  "recognized f = (case Format f of FrameOther n \<Rightarrow> False | _ \<Rightarrow> True)"

text \<open>
  An outcome of \<^verbatim>\<open>ReadFrame\<close> that can end the assembler's loop in the way the spec's
  section 4.1 names: a failure, or a frame with \<open>IsLast\<close> set.
\<close>

definition stops :: "error + Frame \<Rightarrow> bool" where
  "stops r = (case r of Inl e \<Rightarrow> True | Inr f \<Rightarrow> IsLast f)"

text \<open>The image after a frame has been stored by \<open>storeFrame\<close>, unchanged where that fails.\<close>

definition put :: "Image \<Rightarrow> Frame \<Rightarrow> Image" where
  "put m f = (case storeFrame m f of Inl e \<Rightarrow> m | Inr m' \<Rightarrow> m')"

text \<open>\<open>nextFrames c fs\<close>: the next calls of \<^verbatim>\<open>ReadFrame\<close> on \<open>c\<close> yield the frames \<open>fs\<close>, in order.\<close>

fun nextFrames :: "Conn \<Rightarrow> Frame list \<Rightarrow> bool" where
  "nextFrames c [] = True"
| "nextFrames c (f # fs) =
     (case ReadFrame c of
        (Inl err, c') \<Rightarrow> False
      | (Inr g, c') \<Rightarrow> g = f \<and> nextFrames c' fs)"

text \<open>
  The image that the spec's section 4.1 describes for a sequence of frames: slot 0 holds
  the latest Gray, Rgb or Red frame, slot 1 the latest Green frame, slot 2 the latest
  Blue frame, and a slot for which no frame came is empty.
\<close>

definition lastWhere :: "('a \<Rightarrow> bool) \<Rightarrow> 'a list \<Rightarrow> 'a option" where
  "lastWhere P xs = (if filter P xs = [] then None else Some (last (filter P xs)))"

definition assembled :: "Frame list \<Rightarrow> Image" where
  "assembled fs =
     \<lparr>fs0 = lastWhere (\<lambda>f. Format f = FrameGray \<or> Format f = FrameRgb \<or> Format f = FrameRed) fs,
      fs1 = lastWhere (\<lambda>f. Format f = FrameGreen) fs,
      fs2 = lastWhere (\<lambda>f. Format f = FrameBlue) fs\<rparr>"

text \<open>
  \<open>loadImages n c\<close>: \<open>n\<close> calls of \<^verbatim>\<open>loadImage\<close> in a row, starting on \<open>c\<close>, all succeed;
  the value is the list of their images and the connection after them.
\<close>

fun loadImages :: "nat \<Rightarrow> Conn \<Rightarrow> (Image list \<times> Conn) option" where
  "loadImages 0 c = Some ([], c)"
| "loadImages (Suc n) c =
     (case loadImage c of
        Some (Inr m, c') \<Rightarrow>
          (case loadImages n c' of
             Some (ms, c'') \<Rightarrow> Some (m # ms, c'')
           | None \<Rightarrow> None)
      | _ \<Rightarrow> None)"

text \<open>
  \<open>runPages process h ms\<close>: the handler is invoked on the pages \<open>ms\<close>, once per page and in
  order, from the handler state \<open>h\<close>, up to its first failure.
\<close>

fun runPages :: "('h \<Rightarrow> Image \<Rightarrow> error option \<times> 'h) \<Rightarrow> 'h \<Rightarrow> Image list \<Rightarrow> error option \<times> 'h" where
  "runPages process h [] = (None, h)"
| "runPages process h (m # ms) =
     (case process h m of
        (Some err, h') \<Rightarrow> (Some err, h')
      | (None, h') \<Rightarrow> runPages process h' ms)"

text \<open>
  The colour path of the spec's section 4.2, as a function of the depth and of the three
  channel samples: depth 1, each channel scaled by 0xFF, alpha opaque (8-bit scale); depth
  8, channels used directly, alpha opaque (8-bit scale); depth 16, channels used directly
  as 16-bit values, alpha opaque (16-bit scale); any other depth, the zero colour.
\<close>

definition colorOfSamples :: "int \<Rightarrow> 16 word \<Rightarrow> 16 word \<Rightarrow> 16 word \<Rightarrow> Color" where
  "colorOfSamples d r g b =
     (if d = 1 then RGBA (ucast (0xFF * r)) (ucast (0xFF * g)) (ucast (0xFF * b)) 0xFF
      else if d = 8 then RGBA (ucast r) (ucast g) (ucast b) 0xFF
      else if d = 16 then RGBA64 r g b 0xFFFF
      else RGBA 0 0 0 0)"

subsection \<open>Example frames and feeders\<close>

definition mkFrame :: "Format \<Rightarrow> int \<Rightarrow> bool \<Rightarrow> (int \<Rightarrow> int \<Rightarrow> int \<Rightarrow> 16 word) \<Rightarrow> Frame" where
  "mkFrame fmt d islast smp =
     \<lparr>Format = fmt, Width = 2, Height = 2, Depth = d, IsLast = islast, samples = smp\<rparr>"

text \<open>A feeder whose \<^verbatim>\<open>ReadFrame\<close> calls yield the listed outcomes and then Empty for ever.\<close>

definition feeder :: "(error + Frame) list \<Rightarrow> Conn" where
  "feeder xs =
     \<lparr>frames = (\<lambda>i. if i < length xs then xs ! i else Inl ErrEmpty), pos = 0, cancels = 0\<rparr>"

text \<open>A page of one Gray frame of depth 8 whose samples all have the value \<open>v\<close>.\<close>

definition grayPage :: "16 word \<Rightarrow> Frame" where
  "grayPage v = mkFrame FrameGray 8 True (\<lambda>x y ch. v)"

text \<open>A handler that records the pages it is given and never fails.\<close>

definition logPage :: "Image list \<Rightarrow> Image \<Rightarrow> error option \<times> Image list" where
  "logPage seen m = (None, seen @ [m])"

text \<open>A handler that records the pages it is given and fails with Jammed on its second page.\<close>

definition failSecond :: "Image list \<Rightarrow> Image \<Rightarrow> error option \<times> Image list" where
  "failSecond seen m = (if length seen = 1 then Some ErrJammed else None, seen @ [m])"

text \<open>Feeders for the examples: an empty tray, trays of two and three pages, a jam after one page.\<close>

definition emptyTray :: Conn where
  "emptyTray = feeder []"

definition twoPages :: Conn where
  "twoPages = feeder [Inr (grayPage 1), Inr (grayPage 2)]"

definition threePages :: Conn where
  "threePages = feeder [Inr (grayPage 1), Inr (grayPage 2), Inr (grayPage 3)]"

definition jamAfterOne :: Conn where
  "jamAfterOne = feeder [Inr (grayPage 1), Inl ErrJammed]"

text \<open>A three-pass page (Red, Green, Blue planes of depth 8) and its interleaved equivalent.\<close>

definition redPlane :: Frame where
  "redPlane = mkFrame FrameRed 8 False (\<lambda>x y ch. 10)"

definition greenPlane :: Frame where
  "greenPlane = mkFrame FrameGreen 8 False (\<lambda>x y ch. 20)"

definition bluePlane :: Frame where
  "bluePlane = mkFrame FrameBlue 8 True (\<lambda>x y ch. 30)"

definition rgbFrame :: Frame where
  "rgbFrame = mkFrame FrameRgb 8 True (\<lambda>x y ch. if ch = 0 then 10 else if ch = 1 then 20 else 30)"

text \<open>A frame of a format that is none of the five, not marked as last.\<close>

definition oddFrame :: Frame where
  "oddFrame = mkFrame (FrameOther 7) 8 False (\<lambda>x y ch. 0)"

text \<open>A frame of a format that is none of the five, marked as last.\<close>

definition oddLast :: Frame where
  "oddLast = mkFrame (FrameOther 7) 8 True (\<lambda>x y ch. 0)"

text \<open>A page that consists of a single Red frame of depth 4.\<close>

definition redDepth4 :: Frame where
  "redDepth4 = mkFrame FrameRed 4 True (\<lambda>x y ch. 9)"

text \<open>A page that consists of a single Green frame.\<close>

definition greenOnly :: Frame where
  "greenOnly = mkFrame FrameGreen 8 True (\<lambda>x y ch. 5)"

section \<open>Properties\<close>

subsection \<open>The pixel decoder\<close>

text \<open>
  C5. The colour model of an image is a function of the format and the depth of its primary
  frame (slot 0) only: Gray gives the 8-bit grayscale model, or the 16-bit one at depth
  16; any other format gives the 8-bit RGBA model, or the 16-bit one at depth 16.
\<close>

theorem ColorModel_of_primary:
  "fs0 m = Some f \<Longrightarrow>
   ColorModel m =
     Inr (if Format f = FrameGray then (if Depth f = 16 then Gray16Model else GrayModel)
          else (if Depth f = 16 then RGBA64Model else RGBAModel))"
  by (simp add: ColorModel_def)

theorem ColorModel_of_primary_witness:
  "ColorModel (assembled [grayPage 7]) = Inr GrayModel
   \<and> ColorModel (assembled [mkFrame FrameGray 16 True (\<lambda>x y ch. 7)]) = Inr Gray16Model
   \<and> ColorModel (assembled [mkFrame FrameRgb 8 True (\<lambda>x y ch. 7)]) = Inr RGBAModel
   \<and> ColorModel (assembled [mkFrame FrameRed 16 True (\<lambda>x y ch. 7)]) = Inr RGBA64Model"
  using ColorModel_of_primary [of "assembled [grayPage 7]" "grayPage 7"]
    ColorModel_of_primary [of "assembled [mkFrame FrameGray 16 True (\<lambda>x y ch. 7)]" "mkFrame FrameGray 16 True (\<lambda>x y ch. 7)"]
    ColorModel_of_primary [of "assembled [mkFrame FrameRgb 8 True (\<lambda>x y ch. 7)]" "mkFrame FrameRgb 8 True (\<lambda>x y ch. 7)"]
    ColorModel_of_primary [of "assembled [mkFrame FrameRed 16 True (\<lambda>x y ch. 7)]" "mkFrame FrameRed 16 True (\<lambda>x y ch. 7)"]
  by (simp add: assembled_def lastWhere_def grayPage_def mkFrame_def)

text \<open>
  C6. For an image whose primary frame is Gray and a coordinate within its bounds: at
  depth 1 \<open>At\<close> returns the sample scaled by 0xFF as an 8-bit gray value, which is 0 for the
  sample 0 and 255 for the sample 1; at depth 8 it returns the sample as an 8-bit gray
  value (the same number whenever the sample fits in 8 bits); at depth 16 it returns the
  sample as a 16-bit gray value.
\<close>

theorem At_gray:
  "fs0 m = Some f \<Longrightarrow> Format f = FrameGray \<Longrightarrow>
   0 \<le> x \<Longrightarrow> x < Width f \<Longrightarrow> 0 \<le> y \<Longrightarrow> y < Height f \<Longrightarrow>
   (Depth f = 1 \<longrightarrow>
      At m x y = Inr (Gray (ucast (0xFF * Frame_At f x y 0)))
      \<and> (Frame_At f x y 0 = 0 \<longrightarrow> At m x y = Inr (Gray 0))
      \<and> (Frame_At f x y 0 = 1 \<longrightarrow> At m x y = Inr (Gray 255)))
   \<and> (Depth f = 8 \<longrightarrow>
      At m x y = Inr (Gray (ucast (Frame_At f x y 0)))
      \<and> (Frame_At f x y 0 \<le> 255 \<longrightarrow> (\<exists>v. At m x y = Inr (Gray v) \<and> unat v = unat (Frame_At f x y 0))))
   \<and> (Depth f = 16 \<longrightarrow> At m x y = Inr (Gray16 (Frame_At f x y 0)))"
  by (simp add: At_def unsigned_ucast_eq take_bit_nat_eq_self_iff word_le_nat_alt)

theorem At_gray_witness:
  "At (assembled [mkFrame FrameGray 1 True (\<lambda>x y ch. 1)]) 1 1 = Inr (Gray 255)
   \<and> At (assembled [mkFrame FrameGray 1 True (\<lambda>x y ch. 0)]) 1 0 = Inr (Gray 0)
   \<and> At (assembled [grayPage 200]) 0 1 = Inr (Gray 200)
   \<and> At (assembled [mkFrame FrameGray 16 True (\<lambda>x y ch. 4660)]) 0 0 = Inr (Gray16 4660)"
  using
    At_gray [of "assembled [mkFrame FrameGray 1 True (\<lambda>x y ch. 1)]"
                "mkFrame FrameGray 1 True (\<lambda>x y ch. 1)" 1 1]
    At_gray [of "assembled [mkFrame FrameGray 1 True (\<lambda>x y ch. 0)]"
                "mkFrame FrameGray 1 True (\<lambda>x y ch. 0)" 1 0]
    At_gray [of "assembled [grayPage 200]" "grayPage 200" 0 1]
    At_gray [of "assembled [mkFrame FrameGray 16 True (\<lambda>x y ch. 4660)]"
                "mkFrame FrameGray 16 True (\<lambda>x y ch. 4660)" 0 0]
  by (simp add: assembled_def lastWhere_def grayPage_def mkFrame_def Frame_At_def)

text \<open>
  C7 (amended). For an image with a primary frame, \<open>At\<close> returns the zero colour (all
  channels and alpha zero) at every coordinate outside the bounds of the primary frame,
  whatever the format and the depth. It returns the same zero colour at every coordinate
  when the depth is none of 1, 8 and 16, provided the frames it reads are there: always
  for Gray and interleaved Rgb, and for a planar image when slots 1 and 2 are filled. For
  a planar image with an empty slot 1 or 2, \<open>At\<close> panics on the nil frame at every
  coordinate within the bounds, whatever the depth.
\<close>

theorem At_zero_color:
  "fs0 m = Some f \<Longrightarrow>
   ((x < 0 \<or> x \<ge> Width f \<or> y < 0 \<or> y \<ge> Height f) \<longrightarrow> At m x y = Inr (RGBA 0 0 0 0))
   \<and> ((Depth f \<noteq> 1 \<and> Depth f \<noteq> 8 \<and> Depth f \<noteq> 16
        \<and> (Format f = FrameGray \<or> Format f = FrameRgb \<or> (fs1 m \<noteq> None \<and> fs2 m \<noteq> None)))
       \<longrightarrow> At m x y = Inr (RGBA 0 0 0 0))
   \<and> ((0 \<le> x \<and> x < Width f \<and> 0 \<le> y \<and> y < Height f
        \<and> Format f \<noteq> FrameGray \<and> Format f \<noteq> FrameRgb \<and> (fs1 m = None \<or> fs2 m = None))
       \<longrightarrow> At m x y = Inl NilDereference)"
  by (auto simp: At_def split: option.splits)

theorem At_zero_color_witness:
  "At (assembled [grayPage 200]) 2 0 = Inr (RGBA 0 0 0 0)
   \<and> At (assembled [mkFrame FrameRgb 16 True (\<lambda>x y ch. 9)]) 0 (- 1) = Inr (RGBA 0 0 0 0)
   \<and> At (assembled [mkFrame FrameGray 4 True (\<lambda>x y ch. 9)]) 1 1 = Inr (RGBA 0 0 0 0)
   \<and> At (assembled [mkFrame FrameRed 2 False (\<lambda>x y ch. 9), mkFrame FrameGreen 2 False (\<lambda>x y ch. 9),
                     mkFrame FrameBlue 2 True (\<lambda>x y ch. 9)]) 1 1 = Inr (RGBA 0 0 0 0)
   \<and> At (assembled [redPlane]) 0 0 = Inl NilDereference"
  using
    At_zero_color [of "assembled [grayPage 200]" "grayPage 200" 2 0]
    At_zero_color [of "assembled [mkFrame FrameRgb 16 True (\<lambda>x y ch. 9)]"
                      "mkFrame FrameRgb 16 True (\<lambda>x y ch. 9)" 0 "- 1"]
    At_zero_color [of "assembled [mkFrame FrameGray 4 True (\<lambda>x y ch. 9)]"
                      "mkFrame FrameGray 4 True (\<lambda>x y ch. 9)" 1 1]
    At_zero_color [of "assembled [mkFrame FrameRed 2 False (\<lambda>x y ch. 9), mkFrame FrameGreen 2 False (\<lambda>x y ch. 9),
                     mkFrame FrameBlue 2 True (\<lambda>x y ch. 9)]"
                      "mkFrame FrameRed 2 False (\<lambda>x y ch. 9)" 1 1]
    At_zero_color [of "assembled [redPlane]" redPlane 0 0]
  by (simp add: assembled_def lastWhere_def grayPage_def redPlane_def mkFrame_def)

text \<open>
  C3. At a coordinate within the bounds, an image whose primary frame is interleaved Rgb
  takes red, green and blue from the primary frame at the channel indices 0, 1, 2; a
  three-plane image (primary format Red) takes them from the slots 0, 1, 2, each at
  channel index 0 of its own frame. Hence an interleaved image and a three-plane image
  of the same depth give the same colour at every coordinate within the bounds of both
  where their samples are equal, and their colour models are equal.
\<close>

theorem At_color_layouts:
  "(fs0 mi = Some fi \<and> Format fi = FrameRgb
      \<and> 0 \<le> x \<and> x < Width fi \<and> 0 \<le> y \<and> y < Height fi
    \<longrightarrow> At mi x y =
          Inr (colorOfSamples (Depth fi) (Frame_At fi x y 0) (Frame_At fi x y 1) (Frame_At fi x y 2)))
   \<and> (fs0 mp = Some fr \<and> fs1 mp = Some fg \<and> fs2 mp = Some fb \<and> Format fr = FrameRed
      \<and> 0 \<le> x \<and> x < Width fr \<and> 0 \<le> y \<and> y < Height fr
    \<longrightarrow> At mp x y =
          Inr (colorOfSamples (Depth fr) (Frame_At fr x y 0) (Frame_At fg x y 0) (Frame_At fb x y 0)))
   \<and> (fs0 mi = Some fi \<and> Format fi = FrameRgb
      \<and> fs0 mp = Some fr \<and> fs1 mp = Some fg \<and> fs2 mp = Some fb \<and> Format fr = FrameRed
      \<and> Depth fi = Depth fr
      \<and> 0 \<le> x \<and> x < Width fi \<and> x < Width fr \<and> 0 \<le> y \<and> y < Height fi \<and> y < Height fr
      \<and> Frame_At fi x y 0 = Frame_At fr x y 0
      \<and> Frame_At fi x y 1 = Frame_At fg x y 0
      \<and> Frame_At fi x y 2 = Frame_At fb x y 0
    \<longrightarrow> At mi x y = At mp x y \<and> ColorModel mi = ColorModel mp)"
  by (simp add: At_def ColorModel_def colorOfSamples_def opaque8_def opaque16_def)

theorem At_color_layouts_witness:
  "At (assembled [rgbFrame]) 1 1 = Inr (RGBA 10 20 30 255)
   \<and> At (assembled [redPlane, greenPlane, bluePlane]) 1 1 = Inr (RGBA 10 20 30 255)
   \<and> At (assembled [rgbFrame]) 1 1 = At (assembled [redPlane, greenPlane, bluePlane]) 1 1
   \<and> ColorModel (assembled [rgbFrame]) = ColorModel (assembled [redPlane, greenPlane, bluePlane])"
  using At_color_layouts [of "assembled [rgbFrame]" rgbFrame 1 1
      "assembled [redPlane, greenPlane, bluePlane]" redPlane greenPlane bluePlane]
  by (simp add: assembled_def lastWhere_def rgbFrame_def redPlane_def greenPlane_def
      bluePlane_def mkFrame_def Frame_At_def colorOfSamples_def)

subsection \<open>One iteration of the assembler's loop\<close>

lemma loadImage_loop_error:
  "frames c (pos c) = Inl e \<Longrightarrow> loadImage_loop m c = Some (Inl e, c\<lparr>pos := pos c + 1\<rparr>)"
  by (subst loadImage_loop.simps) (simp add: ReadFrame_def)

lemma loadImage_loop_unknown:
  "frames c (pos c) = Inr f \<Longrightarrow> \<not> recognized f \<Longrightarrow>
   loadImage_loop m c = Some (Inl (UnknownFrameType (Format f)), c\<lparr>pos := pos c + 1\<rparr>)"
  by (subst loadImage_loop.simps)
     (simp add: ReadFrame_def storeFrame_def recognized_def split: Format.splits)

lemma storeFrame_recognized: "recognized f \<Longrightarrow> storeFrame m f = Inr (put m f)"
  by (simp add: put_def storeFrame_def recognized_def split: Format.splits)

lemma loadImage_loop_last:
  "frames c (pos c) = Inr f \<Longrightarrow> recognized f \<Longrightarrow> IsLast f \<Longrightarrow>
   loadImage_loop m c = Some (Inr (put m f), c\<lparr>pos := pos c + 1\<rparr>)"
  by (subst loadImage_loop.simps) (simp add: ReadFrame_def storeFrame_recognized)

lemma loadImage_loop_more:
  "frames c (pos c) = Inr f \<Longrightarrow> recognized f \<Longrightarrow> \<not> IsLast f \<Longrightarrow>
   loadImage_loop m c = loadImage_loop (put m f) (c\<lparr>pos := pos c + 1\<rparr>)"
  by (subst loadImage_loop.simps) (simp add: ReadFrame_def storeFrame_recognized)

lemma nextFrames_Cons:
  "nextFrames c (f # fs) = (frames c (pos c) = Inr f \<and> nextFrames (c\<lparr>pos := pos c + 1\<rparr>) fs)"
  by (auto simp: ReadFrame_def split: sum.splits)

lemma nextFrames_append:
  "nextFrames c (fs @ gs) = (nextFrames c fs \<and> nextFrames (c\<lparr>pos := pos c + length fs\<rparr>) gs)"
proof (induction fs arbitrary: c)
  case Nil
  then show ?case by simp
next
  case (Cons f fs)
  show ?case
    unfolding append_Cons nextFrames_Cons Cons.IH by (simp add: add.commute add.left_commute)
qed

lemma loadImage_loop_prefix:
  "nextFrames c fs \<Longrightarrow> \<forall>f \<in> set fs. recognized f \<and> \<not> IsLast f \<Longrightarrow>
   loadImage_loop m c = loadImage_loop (foldl put m fs) (c\<lparr>pos := pos c + length fs\<rparr>)"
proof (induction fs arbitrary: m c)
  case Nil
  then show ?case by simp
next
  case (Cons f fs)
  from Cons.prems have hd: "frames c (pos c) = Inr f" "recognized f" "\<not> IsLast f"
    and tl: "nextFrames (c\<lparr>pos := pos c + 1\<rparr>) fs" "\<forall>g \<in> set fs. recognized g \<and> \<not> IsLast g"
    by (simp_all add: nextFrames_Cons del: nextFrames.simps)
  have "loadImage_loop m c = loadImage_loop (put m f) (c\<lparr>pos := pos c + 1\<rparr>)"
    using hd by (rule loadImage_loop_more)
  also have "\<dots> = loadImage_loop (foldl put (put m f) fs) (c\<lparr>pos := pos c + 1, pos := pos c + 1 + length fs\<rparr>)"
    using Cons.IH [OF tl] by simp
  finally show ?case by (simp add: add.commute add.left_commute)
qed

lemma lastWhere_snoc:
  "lastWhere P (xs @ [x]) = (if P x then Some x else lastWhere P xs)"
  by (simp add: lastWhere_def)

lemma put_assembled:
  "recognized f \<Longrightarrow> put (assembled fs) f = assembled (fs @ [f])"
  by (auto simp: put_def storeFrame_def assembled_def lastWhere_snoc recognized_def split: Format.splits)

lemma foldl_put_assembled:
  "\<forall>f \<in> set fs. recognized f \<Longrightarrow> foldl put emptyImage fs = assembled fs"
proof (induction fs rule: rev_induct)
  case Nil
  then show ?case by (simp add: emptyImage_def assembled_def lastWhere_def)
next
  case (snoc f fs)
  then show ?case by (simp add: put_assembled)
qed

lemma loadImage_frames:
  assumes "nextFrames c (fs @ [f])" and "\<forall>g \<in> set fs. recognized g \<and> \<not> IsLast g"
    and "recognized f" and "IsLast f"
  shows "loadImage c = Some (Inr (assembled (fs @ [f])), c\<lparr>pos := pos c + length fs + 1\<rparr>)"
proof -
  from assms(1) have pre: "nextFrames c fs" and at: "frames c (pos c + length fs) = Inr f"
    by (simp_all add: nextFrames_append nextFrames_Cons del: nextFrames.simps)
  have "loadImage c = loadImage_loop (foldl put emptyImage fs) (c\<lparr>pos := pos c + length fs\<rparr>)"
    unfolding loadImage_def using pre assms(2) by (rule loadImage_loop_prefix)
  also have "\<dots> = Some (Inr (put (foldl put emptyImage fs) f), c\<lparr>pos := pos c + length fs + 1\<rparr>)"
    using at assms(3,4) by (simp add: loadImage_loop_last)
  also have "put (foldl put emptyImage fs) f = assembled (fs @ [f])"
    using assms(2,3) by (simp add: foldl_put_assembled put_assembled)
  finally show ?thesis .
qed

lemma loadImage_read_error:
  assumes "nextFrames c fs" and "\<forall>g \<in> set fs. recognized g \<and> \<not> IsLast g"
    and "frames c (pos c + length fs) = Inl e"
  shows "loadImage c = Some (Inl e, c\<lparr>pos := pos c + length fs + 1\<rparr>)"
proof -
  have "loadImage c = loadImage_loop (foldl put emptyImage fs) (c\<lparr>pos := pos c + length fs\<rparr>)"
    unfolding loadImage_def using assms(1,2) by (rule loadImage_loop_prefix)
  also have "\<dots> = Some (Inl e, c\<lparr>pos := pos c + length fs + 1\<rparr>)"
    using assms(3) by (simp add: loadImage_loop_error)
  finally show ?thesis .
qed

lemma loadImage_unknown:
  assumes "nextFrames c (fs @ [f])" and "\<forall>g \<in> set fs. recognized g \<and> \<not> IsLast g"
    and "\<not> recognized f"
  shows "loadImage c = Some (Inl (UnknownFrameType (Format f)), c\<lparr>pos := pos c + length fs + 1\<rparr>)"
proof -
  from assms(1) have pre: "nextFrames c fs" and at: "frames c (pos c + length fs) = Inr f"
    by (simp_all add: nextFrames_append nextFrames_Cons del: nextFrames.simps)
  have "loadImage c = loadImage_loop (foldl put emptyImage fs) (c\<lparr>pos := pos c + length fs\<rparr>)"
    unfolding loadImage_def using pre assms(2) by (rule loadImage_loop_prefix)
  also have "\<dots> = Some (Inl (UnknownFrameType (Format f)), c\<lparr>pos := pos c + length fs + 1\<rparr>)"
    using at assms(3) by (simp add: loadImage_loop_unknown)
  finally show ?thesis .
qed

lemma loadImage_loop_terminates:
  "stops (frames c (pos c + k)) \<Longrightarrow> \<exists>r c'. loadImage_loop m c = Some (r, c')"
proof (induction k arbitrary: m c)
  case 0
  show ?case
  proof (cases "frames c (pos c)")
    case (Inl e)
    then show ?thesis by (simp add: loadImage_loop_error)
  next
    case (Inr f)
    with 0 have "IsLast f" by (simp add: stops_def)
    with Inr show ?thesis
      by (cases "recognized f") (simp_all add: loadImage_loop_last loadImage_loop_unknown)
  qed
next
  case (Suc k)
  show ?case
  proof (cases "frames c (pos c)")
    case (Inl e)
    then show ?thesis by (simp add: loadImage_loop_error)
  next
    case (Inr f)
    show ?thesis
    proof (cases "recognized f \<and> \<not> IsLast f")
      case True
      have "stops (frames (c\<lparr>pos := pos c + 1\<rparr>) (pos (c\<lparr>pos := pos c + 1\<rparr>) + k))"
        using Suc.prems by simp
      then have "\<exists>r c'. loadImage_loop (put m f) (c\<lparr>pos := pos c + 1\<rparr>) = Some (r, c')"
        by (rule Suc.IH)
      with Inr True show ?thesis by (simp add: loadImage_loop_more)
    next
      case False
      with Inr show ?thesis
        by (cases "recognized f") (simp_all add: loadImage_loop_last loadImage_loop_unknown)
    qed
  qed
qed

lemma lastWhere_None: "(lastWhere P xs = None) = (\<forall>x \<in> set xs. \<not> P x)"
  by (simp add: lastWhere_def filter_empty_conv)

lemma no_primary_panics:
  "fs0 m = None \<Longrightarrow>
   Bounds m = Inl NilDereference \<and> ColorModel m = Inl NilDereference
   \<and> (\<forall>x y. 0 \<le> x \<longrightarrow> At m x y = Inl NilDereference)"
  by (simp add: Bounds_def ColorModel_def At_def)

subsection \<open>Evaluating the examples\<close>

lemma feeder_simps:
  "frames (feeder xs) = (\<lambda>i. if i < length xs then xs ! i else Inl ErrEmpty)"
  "pos (feeder xs) = 0" "cancels (feeder xs) = 0"
  by (simp_all add: feeder_def)

lemma loadImage_one_frame:
  "frames c (pos c) = Inr f \<Longrightarrow> recognized f \<Longrightarrow> IsLast f \<Longrightarrow>
   loadImage c = Some (Inr (assembled [f]), c\<lparr>pos := pos c + 1\<rparr>)"
  using loadImage_frames [of c "[]" f] by (simp add: ReadFrame_def)

lemma loadImage_no_frame:
  "frames c (pos c) = Inl e \<Longrightarrow> loadImage c = Some (Inl e, c\<lparr>pos := pos c + 1\<rparr>)"
  using loadImage_read_error [of c "[]" e] by simp

lemma grayPage_simps: "recognized (grayPage v)" "IsLast (grayPage v)"
  by (simp_all add: grayPage_def mkFrame_def recognized_def)

lemma twoPages_loads:
  "loadImages 2 twoPages =
     Some ([assembled [grayPage 1], assembled [grayPage 2]], twoPages\<lparr>pos := 2\<rparr>)"
  "loadImage (twoPages\<lparr>pos := 2\<rparr>) = Some (Inl ErrEmpty, twoPages\<lparr>pos := 3\<rparr>)"
  by (simp_all add: numeral_2_eq_2 twoPages_def feeder_simps loadImage_one_frame
      loadImage_no_frame grayPage_simps)

lemma emptyTray_loads: "loadImage emptyTray = Some (Inl ErrEmpty, emptyTray\<lparr>pos := 1\<rparr>)"
  by (simp add: emptyTray_def feeder_simps loadImage_no_frame)

lemma jamAfterOne_loads:
  "loadImages 1 jamAfterOne = Some ([assembled [grayPage 1]], jamAfterOne\<lparr>pos := 1\<rparr>)"
  "loadImage (jamAfterOne\<lparr>pos := 1\<rparr>) = Some (Inl ErrJammed, jamAfterOne\<lparr>pos := 2\<rparr>)"
  by (simp_all add: jamAfterOne_def feeder_simps loadImage_one_frame loadImage_no_frame
      grayPage_simps)

lemma threePages_loads:
  "loadImages 2 threePages =
     Some ([assembled [grayPage 1]] @ [assembled [grayPage 2]], threePages\<lparr>pos := 2\<rparr>)"
  by (simp add: numeral_2_eq_2 threePages_def feeder_simps loadImage_one_frame grayPage_simps)

lemma twoPages_first:
  "loadImage twoPages = Some (Inr (assembled [grayPage 1]), twoPages\<lparr>pos := 1\<rparr>)"
  by (simp add: twoPages_def feeder_simps loadImage_one_frame grayPage_simps)

lemma plane_simps:
  "recognized redPlane" "\<not> IsLast redPlane" "recognized greenPlane" "\<not> IsLast greenPlane"
  "recognized bluePlane" "IsLast bluePlane" "\<not> recognized oddFrame" "\<not> IsLast oddFrame"
  "Format oddFrame = FrameOther 7"
  by (simp_all add: redPlane_def greenPlane_def bluePlane_def oddFrame_def mkFrame_def
      recognized_def)

lemma nextFrames_feeder:
  "nextFrames (feeder [Inr f1, Inr f2, Inr f3]) [f1, f2, f3]"
  "nextFrames (feeder [Inr f1, Inr f2, Inr f3]) [f1, f2]"
  "nextFrames (feeder [Inr f1, Inr f2, Inr f3]) [f1]"
  "nextFrames (feeder [Inr f1, Inr f2]) [f1, f2]"
  "nextFrames (feeder [Inr f1, Inl e]) [f1]"
  "nextFrames (feeder [Inr f1]) [f1]"
  by (simp_all add: feeder_def ReadFrame_def)

text \<open>
  C9 (amended). When some later call of \<^verbatim>\<open>ReadFrame\<close> yields a failure or a frame with
  \<open>IsLast\<close> set, \<open>loadImage\<close> returns. When the frames up to and including the first
  frame with \<open>IsLast\<close> set all have recognised formats, it reads exactly those frames and
  returns the image assembled from them. When \<^verbatim>\<open>ReadFrame\<close> fails after recognised frames
  without \<open>IsLast\<close>, it returns that very error value, having read nothing further. When
  a frame of unrecognised format comes after recognised frames without \<open>IsLast\<close>, it
  returns the unknown-frame error of that format and no image, having read nothing
  further, whether that frame has \<open>IsLast\<close> set or not.
\<close>

theorem loadImage_terminates:
  "((\<exists>k. stops (frames c (pos c + k))) \<longrightarrow> (\<exists>r c'. loadImage c = Some (r, c')))
   \<and> (nextFrames c (fs @ [f]) \<and> (\<forall>g \<in> set fs. recognized g \<and> \<not> IsLast g)
        \<and> recognized f \<and> IsLast f
      \<longrightarrow> loadImage c = Some (Inr (assembled (fs @ [f])), c\<lparr>pos := pos c + length fs + 1\<rparr>))
   \<and> (nextFrames c fs \<and> (\<forall>g \<in> set fs. recognized g \<and> \<not> IsLast g)
        \<and> frames c (pos c + length fs) = Inl e
      \<longrightarrow> loadImage c = Some (Inl e, c\<lparr>pos := pos c + length fs + 1\<rparr>))
   \<and> (nextFrames c (fs @ [f]) \<and> (\<forall>g \<in> set fs. recognized g \<and> \<not> IsLast g)
        \<and> \<not> recognized f
      \<longrightarrow> loadImage c =
            Some (Inl (UnknownFrameType (Format f)), c\<lparr>pos := pos c + length fs + 1\<rparr>))"
  using loadImage_loop_terminates [of c _ emptyImage] loadImage_frames [of c fs f]
    loadImage_read_error [of c fs e] loadImage_unknown [of c fs f]
  by (auto simp: loadImage_def)

theorem loadImage_terminates_witness:
  "(stops (frames (feeder [Inr redPlane, Inr greenPlane, Inr bluePlane])
            (pos (feeder [Inr redPlane, Inr greenPlane, Inr bluePlane]) + 2))
    \<and> (\<exists>r c'. loadImage (feeder [Inr redPlane, Inr greenPlane, Inr bluePlane]) = Some (r, c')))
   \<and> (nextFrames (feeder [Inr redPlane, Inr greenPlane, Inr bluePlane])
         ([redPlane, greenPlane] @ [bluePlane])
    \<and> loadImage (feeder [Inr redPlane, Inr greenPlane, Inr bluePlane]) =
        Some (Inr (assembled [redPlane, greenPlane, bluePlane]),
              feeder [Inr redPlane, Inr greenPlane, Inr bluePlane]\<lparr>pos := 3\<rparr>))
   \<and> (nextFrames (feeder [Inr redPlane, Inl ErrIo]) [redPlane]
    \<and> frames (feeder [Inr redPlane, Inl ErrIo]) 1 = Inl ErrIo
    \<and> loadImage (feeder [Inr redPlane, Inl ErrIo]) =
        Some (Inl ErrIo, feeder [Inr redPlane, Inl ErrIo]\<lparr>pos := 2\<rparr>))
   \<and> loadImage emptyTray = Some (Inl ErrEmpty, emptyTray\<lparr>pos := 1\<rparr>)
   \<and> (nextFrames (feeder [Inr redPlane, Inr oddFrame, Inr (grayPage 1)]) ([redPlane] @ [oddFrame])
    \<and> \<not> recognized oddFrame \<and> \<not> IsLast oddFrame
    \<and> loadImage (feeder [Inr redPlane, Inr oddFrame, Inr (grayPage 1)]) =
        Some (Inl (UnknownFrameType (FrameOther 7)),
              feeder [Inr redPlane, Inr oddFrame, Inr (grayPage 1)]\<lparr>pos := 2\<rparr>))
   \<and> (nextFrames (feeder [Inr redPlane, Inr oddLast]) ([redPlane] @ [oddLast])
    \<and> \<not> recognized oddLast \<and> IsLast oddLast
    \<and> loadImage (feeder [Inr redPlane, Inr oddLast]) =
        Some (Inl (UnknownFrameType (FrameOther 7)), feeder [Inr redPlane, Inr oddLast]\<lparr>pos := 2\<rparr>))"
proof -
  have odd: "\<not> recognized oddLast" "IsLast oddLast" "Format oddLast = FrameOther 7"
    by (simp_all add: oddLast_def mkFrame_def recognized_def)
  have st: "stops (frames (feeder [Inr redPlane, Inr greenPlane, Inr bluePlane])
            (pos (feeder [Inr redPlane, Inr greenPlane, Inr bluePlane]) + 2))"
    by (simp add: feeder_simps stops_def plane_simps)
  then have ex: "\<exists>k. stops (frames (feeder [Inr redPlane, Inr greenPlane, Inr bluePlane])
            (pos (feeder [Inr redPlane, Inr greenPlane, Inr bluePlane]) + k))"
    by (rule exI)
  show ?thesis
    using loadImage_terminates
        [of "feeder [Inr redPlane, Inr greenPlane, Inr bluePlane]" "[redPlane, greenPlane]" bluePlane]
      loadImage_terminates [of "feeder [Inr redPlane, Inl ErrIo]" "[redPlane]" _ ErrIo]
      loadImage_terminates [of emptyTray "[]" _ ErrEmpty]
      loadImage_terminates
        [of "feeder [Inr redPlane, Inr oddFrame, Inr (grayPage 1)]" "[redPlane]" oddFrame ErrEmpty]
      loadImage_terminates [of "feeder [Inr redPlane, Inr oddLast]" "[redPlane]" oddLast ErrEmpty]
      st ex nextFrames_feeder(1) [of redPlane greenPlane bluePlane]
      nextFrames_feeder(5) [of redPlane ErrIo]
      nextFrames_feeder(2) [of redPlane oddFrame "grayPage 1"]
      nextFrames_feeder(4) [of redPlane oddLast]
    by (simp add: plane_simps odd feeder_simps emptyTray_def)
qed

text \<open>
  The claim C9 as stated fails: here the first call of \<^verbatim>\<open>ReadFrame\<close> yields a frame with
  \<open>IsLast\<close> set, and no call of \<^verbatim>\<open>ReadFrame\<close> fails, but \<open>loadImage\<close> returns the
  unknown-frame error and no image, because the format is tested before \<open>IsLast\<close>.
\<close>

theorem loadImage_last_unknown_counterexample:
  "frames (feeder [Inr oddLast]) 0 = Inr oddLast
   \<and> IsLast oddLast
   \<and> stops (frames (feeder [Inr oddLast]) (pos (feeder [Inr oddLast]) + 0))
   \<and> loadImage (feeder [Inr oddLast]) =
       Some (Inl (UnknownFrameType (FrameOther 7)), feeder [Inr oddLast]\<lparr>pos := 1\<rparr>)"
  using loadImage_unknown [of "feeder [Inr oddLast]" "[]" oddLast]
  by (simp add: feeder_simps stops_def oddLast_def mkFrame_def recognized_def ReadFrame_def)

text \<open>
  C4. When \<^verbatim>\<open>ReadFrame\<close> yields frames without \<open>IsLast\<close> set and then a frame \<open>f\<close> of an
  unrecognised format, \<open>loadImage\<close> fails with the unknown-frame error that carries the
  format of the first unrecognised frame, has read no frame beyond that one, and returns
  no image. When all frames before \<open>f\<close> are recognised, the error carries the format of
  \<open>f\<close> and \<open>f\<close> is the last frame read.
\<close>

theorem loadImage_unknown_format:
  assumes "nextFrames c (fs @ [f])" and "\<forall>g \<in> set fs. \<not> IsLast g" and "\<not> recognized f"
  shows "((\<forall>g \<in> set fs. recognized g) \<longrightarrow>
            loadImage c = Some (Inl (UnknownFrameType (Format f)), c\<lparr>pos := pos c + length fs + 1\<rparr>))
         \<and> (\<exists>pre g rest. fs @ [f] = pre @ g # rest \<and> (\<forall>h \<in> set pre. recognized h) \<and> \<not> recognized g
              \<and> loadImage c =
                  Some (Inl (UnknownFrameType (Format g)), c\<lparr>pos := pos c + length pre + 1\<rparr>))"
proof
  show "(\<forall>g \<in> set fs. recognized g) \<longrightarrow>
          loadImage c = Some (Inl (UnknownFrameType (Format f)), c\<lparr>pos := pos c + length fs + 1\<rparr>)"
    using assms by (simp add: loadImage_unknown)
next
  have "\<exists>x \<in> set (fs @ [f]). \<not> recognized x" using assms(3) by simp
  then obtain pre g rest where split: "fs @ [f] = pre @ g # rest"
    and g: "\<not> recognized g" and pre: "\<forall>h \<in> set pre. \<not> \<not> recognized h"
    by (rule split_list_first_propE)
  have "butlast (fs @ [f]) = butlast (pre @ g # rest)" by (simp only: split)
  then have "fs = pre @ butlast (g # rest)" by (simp add: butlast_append)
  then have "set pre \<subseteq> set fs" by (metis set_append sup_ge1)
  with assms(2) pre have ok: "\<forall>h \<in> set pre. recognized h \<and> \<not> IsLast h" by auto
  have "nextFrames c ((pre @ [g]) @ rest)" using assms(1) split by simp
  then have "nextFrames c (pre @ [g])" by (simp only: nextFrames_append)
  then have "loadImage c =
      Some (Inl (UnknownFrameType (Format g)), c\<lparr>pos := pos c + length pre + 1\<rparr>)"
    using ok g by (rule loadImage_unknown)
  with split g pre
  show "\<exists>pre g rest. fs @ [f] = pre @ g # rest \<and> (\<forall>h \<in> set pre. recognized h) \<and> \<not> recognized g
          \<and> loadImage c =
              Some (Inl (UnknownFrameType (Format g)), c\<lparr>pos := pos c + length pre + 1\<rparr>)"
    by auto
qed

theorem loadImage_unknown_format_witness:
  "nextFrames (feeder [Inr redPlane, Inr oddFrame, Inr (grayPage 1)]) ([redPlane] @ [oddFrame])
   \<and> \<not> IsLast redPlane \<and> \<not> recognized oddFrame \<and> recognized redPlane
   \<and> loadImage (feeder [Inr redPlane, Inr oddFrame, Inr (grayPage 1)]) =
       Some (Inl (UnknownFrameType (FrameOther 7)),
             feeder [Inr redPlane, Inr oddFrame, Inr (grayPage 1)]\<lparr>pos := 2\<rparr>)"
  using loadImage_unknown_format
      [of "feeder [Inr redPlane, Inr oddFrame, Inr (grayPage 1)]" "[redPlane]" oddFrame]
    nextFrames_feeder(2) [of redPlane oddFrame "grayPage 1"]
  by (simp add: plane_simps feeder_simps)

text \<open>
  C10 (amended). \<open>loadImage\<close> succeeds as soon as a recognised frame with \<open>IsLast\<close> set
  has been read after recognised frames, whatever channels these frames supply. When they
  are all Green or Blue frames (in particular a single Green or Blue frame), slot 0 of the
  returned image is empty; \<open>Bounds\<close> and \<open>ColorModel\<close> panic on the nil frame, and so does
  \<open>At\<close> at every coordinate with \<open>0 \<le> x\<close>, while for \<open>x < 0\<close> it returns the zero colour.
\<close>

theorem loadImage_no_validation:
  assumes "nextFrames c (fs @ [f])" and "\<forall>g \<in> set fs. recognized g \<and> \<not> IsLast g"
    and "recognized f" and "IsLast f"
  shows "loadImage c = Some (Inr (assembled (fs @ [f])), c\<lparr>pos := pos c + length fs + 1\<rparr>)
         \<and> ((\<forall>g \<in> set (fs @ [f]). Format g = FrameGreen \<or> Format g = FrameBlue) \<longrightarrow>
              fs0 (assembled (fs @ [f])) = None
              \<and> Bounds (assembled (fs @ [f])) = Inl NilDereference
              \<and> ColorModel (assembled (fs @ [f])) = Inl NilDereference
              \<and> (\<forall>x y. At (assembled (fs @ [f])) x y =
                    (if x < 0 then Inr (RGBA 0 0 0 0) else Inl NilDereference)))"
proof (intro conjI impI)
  show "loadImage c = Some (Inr (assembled (fs @ [f])), c\<lparr>pos := pos c + length fs + 1\<rparr>)"
    using assms by (rule loadImage_frames)
next
  assume "\<forall>g \<in> set (fs @ [f]). Format g = FrameGreen \<or> Format g = FrameBlue"
  then have none: "fs0 (assembled (fs @ [f])) = None"
    unfolding assembled_def by (auto simp: lastWhere_None)
  then show "fs0 (assembled (fs @ [f])) = None" .
  from none show "Bounds (assembled (fs @ [f])) = Inl NilDereference"
    by (simp add: no_primary_panics)
  from none show "ColorModel (assembled (fs @ [f])) = Inl NilDereference"
    by (simp add: no_primary_panics)
  from none show "\<forall>x y. At (assembled (fs @ [f])) x y =
      (if x < 0 then Inr (RGBA 0 0 0 0) else Inl NilDereference)"
    by (simp add: At_def)
qed

theorem loadImage_no_validation_witness:
  "nextFrames (feeder [Inr greenOnly]) ([] @ [greenOnly])
   \<and> recognized greenOnly \<and> IsLast greenOnly \<and> Format greenOnly = FrameGreen
   \<and> loadImage (feeder [Inr greenOnly]) =
       Some (Inr (assembled [greenOnly]), feeder [Inr greenOnly]\<lparr>pos := 1\<rparr>)
   \<and> fs0 (assembled [greenOnly]) = None
   \<and> Bounds (assembled [greenOnly]) = Inl NilDereference
   \<and> ColorModel (assembled [greenOnly]) = Inl NilDereference
   \<and> At (assembled [greenOnly]) 0 0 = Inl NilDereference
   \<and> At (assembled [greenOnly]) 1 (- 3) = Inl NilDereference"
  using loadImage_no_validation [of "feeder [Inr greenOnly]" "[]" greenOnly]
    nextFrames_feeder(6) [of greenOnly]
  by (simp add: feeder_simps greenOnly_def mkFrame_def recognized_def)

text \<open>
  The claim C10 as stated fails for \<open>At\<close>: on the image assembled from a single Green frame,
  whose slot 0 is empty, \<open>At\<close> at a coordinate with \<open>x < 0\<close> returns the zero colour and
  reads no frame.
\<close>

theorem At_negative_x_counterexample:
  "loadImage (feeder [Inr greenOnly]) =
     Some (Inr (assembled [greenOnly]), feeder [Inr greenOnly]\<lparr>pos := 1\<rparr>)
   \<and> fs0 (assembled [greenOnly]) = None
   \<and> At (assembled [greenOnly]) (- 1) 0 = Inr (RGBA 0 0 0 0)"
  using loadImage_one_frame [of "feeder [Inr greenOnly]" greenOnly]
  by (simp add: feeder_simps greenOnly_def mkFrame_def recognized_def assembled_def
      lastWhere_def At_def)

text \<open>
  The claim C7 as stated fails for a depth outside 1, 8 and 16: \<open>loadImage\<close> returns the
  image of a single Red frame of depth 4 with \<open>IsLast\<close> set, whose slots 1 and 2 are empty,
  and \<open>At\<close> at a coordinate within its bounds panics on the nil Green frame instead of
  returning the zero colour.
\<close>

theorem At_missing_plane_counterexample:
  "loadImage (feeder [Inr redDepth4]) =
     Some (Inr (assembled [redDepth4]), feeder [Inr redDepth4]\<lparr>pos := 1\<rparr>)
   \<and> fs0 (assembled [redDepth4]) = Some redDepth4
   \<and> fs1 (assembled [redDepth4]) = None
   \<and> Depth redDepth4 = 4 \<and> Width redDepth4 = 2 \<and> Height redDepth4 = 2
   \<and> At (assembled [redDepth4]) 1 1 = Inl NilDereference"
  using loadImage_one_frame [of "feeder [Inr redDepth4]" redDepth4]
  by (simp add: feeder_simps redDepth4_def mkFrame_def recognized_def assembled_def
      lastWhere_def At_def)

subsection \<open>Several pages\<close>

lemma loadImages_length: "loadImages n c = Some (ms, c') \<Longrightarrow> length ms = n"
  by (induction n arbitrary: c ms) (auto split: option.splits sum.splits prod.splits)

lemma loadImages_Suc_iff:
  "(loadImages (Suc n) c = Some (ps, c1)) =
   (\<exists>m c' ms. loadImage c = Some (Inr m, c') \<and> loadImages n c' = Some (ms, c1) \<and> ps = m # ms)"
  by (auto split: option.splits sum.splits prod.splits)

subsection \<open>ReadAvailableImages\<close>

lemma ReadAvailableImages_loop_error:
  "loadImage c = Some (Inl e, c') \<Longrightarrow>
   ReadAvailableImages_loop images c =
     Some (if e = ErrEmpty \<and> images \<noteq> [] then Inr images else Inl e, c')"
  by (subst ReadAvailableImages_loop.simps) simp

lemma ReadAvailableImages_loop_image:
  "loadImage c = Some (Inr m, c') \<Longrightarrow>
   ReadAvailableImages_loop images c = ReadAvailableImages_loop (images @ [m]) c'"
  by (subst ReadAvailableImages_loop.simps) simp

lemma ReadAvailableImages_loop_pages:
  "loadImages n c = Some (ms, c1) \<Longrightarrow>
   ReadAvailableImages_loop images c = ReadAvailableImages_loop (images @ ms) c1"
proof (induction n arbitrary: c ms images)
  case 0
  then show ?case by simp
next
  case (Suc n)
  from Suc.prems obtain m c' ms' where m: "loadImage c = Some (Inr m, c')"
    and rest: "loadImages n c' = Some (ms', c1)" and ms: "ms = m # ms'"
    unfolding loadImages_Suc_iff by blast
  have "ReadAvailableImages_loop images c = ReadAvailableImages_loop (images @ [m]) c'"
    using m by (rule ReadAvailableImages_loop_image)
  also have "\<dots> = ReadAvailableImages_loop ((images @ [m]) @ ms') c1"
    using rest by (rule Suc.IH)
  finally show ?case by (simp add: ms)
qed

lemma ReadAvailableImages_pages_then_error:
  assumes "loadImages n c = Some (ms, c1)" and "loadImage c1 = Some (Inl e, c2)"
  shows "ReadAvailableImages c =
           Some (if e = ErrEmpty \<and> 0 < n then Inr ms else Inl e, Cancel c2)"
proof -
  have "ReadAvailableImages_loop [] c = ReadAvailableImages_loop ([] @ ms) c1"
    using assms(1) by (rule ReadAvailableImages_loop_pages)
  also have "\<dots> = Some (if e = ErrEmpty \<and> ms \<noteq> [] then Inr ms else Inl e, c2)"
    using assms(2) by (simp add: ReadAvailableImages_loop_error)
  finally show ?thesis
    using loadImages_length [OF assms(1)] by (auto simp: ReadAvailableImages_def)
qed

text \<open>
  C1. When \<open>n \<ge> 1\<close> calls of \<open>loadImage\<close> succeed and the next one fails with Empty,
  \<open>ReadAvailableImages\<close> returns exactly these \<open>n\<close> images in order and no error. When the
  first call fails with Empty, or any call fails with another error, that error is
  returned and no images.
\<close>

theorem ReadAvailableImages_drain:
  "(loadImages n c = Some (ms, c1) \<and> 0 < n \<and> loadImage c1 = Some (Inl ErrEmpty, c2)
      \<longrightarrow> ReadAvailableImages c = Some (Inr ms, Cancel c2) \<and> length ms = n)
   \<and> (loadImage c = Some (Inl ErrEmpty, c2)
      \<longrightarrow> ReadAvailableImages c = Some (Inl ErrEmpty, Cancel c2))
   \<and> (loadImages n c = Some (ms, c1) \<and> loadImage c1 = Some (Inl e, c2) \<and> e \<noteq> ErrEmpty
      \<longrightarrow> ReadAvailableImages c = Some (Inl e, Cancel c2))"
  using ReadAvailableImages_pages_then_error [of n c ms c1 ErrEmpty c2]
    ReadAvailableImages_pages_then_error [of 0 c "[]" c ErrEmpty c2]
    ReadAvailableImages_pages_then_error [of n c ms c1 e c2]
  by (auto simp: loadImages_length)

theorem ReadAvailableImages_drain_witness:
  "(loadImages 2 twoPages =
      Some ([assembled [grayPage 1], assembled [grayPage 2]], twoPages\<lparr>pos := 2\<rparr>)
    \<and> loadImage (twoPages\<lparr>pos := 2\<rparr>) = Some (Inl ErrEmpty, twoPages\<lparr>pos := 3\<rparr>)
    \<and> ReadAvailableImages twoPages =
        Some (Inr [assembled [grayPage 1], assembled [grayPage 2]], Cancel (twoPages\<lparr>pos := 3\<rparr>)))
   \<and> (loadImage emptyTray = Some (Inl ErrEmpty, emptyTray\<lparr>pos := 1\<rparr>)
    \<and> ReadAvailableImages emptyTray = Some (Inl ErrEmpty, Cancel (emptyTray\<lparr>pos := 1\<rparr>)))
   \<and> (loadImages 1 jamAfterOne = Some ([assembled [grayPage 1]], jamAfterOne\<lparr>pos := 1\<rparr>)
    \<and> loadImage (jamAfterOne\<lparr>pos := 1\<rparr>) = Some (Inl ErrJammed, jamAfterOne\<lparr>pos := 2\<rparr>)
    \<and> ReadAvailableImages jamAfterOne = Some (Inl ErrJammed, Cancel (jamAfterOne\<lparr>pos := 2\<rparr>)))"
  using ReadAvailableImages_drain [of 2 twoPages "[assembled [grayPage 1], assembled [grayPage 2]]"
      "twoPages\<lparr>pos := 2\<rparr>" "twoPages\<lparr>pos := 3\<rparr>" ErrEmpty]
    ReadAvailableImages_drain [of 0 emptyTray "[]" emptyTray "emptyTray\<lparr>pos := 1\<rparr>" ErrEmpty]
    ReadAvailableImages_drain [of 1 jamAfterOne "[assembled [grayPage 1]]"
      "jamAfterOne\<lparr>pos := 1\<rparr>" "jamAfterOne\<lparr>pos := 2\<rparr>" ErrJammed]
    twoPages_loads emptyTray_loads jamAfterOne_loads
  by simp

subsection \<open>ContinuousRead\<close>

lemma ContinuousRead_loop_handler_error:
  "process h m = (Some e, h') \<Longrightarrow> ContinuousRead_loop process m h c = Some (Some e, h', c)"
  by (subst ContinuousRead_loop.simps) simp

lemma ContinuousRead_loop_fetch_error:
  "process h m = (None, h') \<Longrightarrow> loadImage c = Some (Inl e, c') \<Longrightarrow>
   ContinuousRead_loop process m h c = Some (if e = ErrEmpty then None else Some e, h', c')"
  by (subst ContinuousRead_loop.simps) simp

lemma ContinuousRead_loop_next:
  "process h m = (None, h') \<Longrightarrow> loadImage c = Some (Inr m', c') \<Longrightarrow>
   ContinuousRead_loop process m h c = ContinuousRead_loop process m' h' c'"
  by (subst ContinuousRead_loop.simps) simp

lemma runPages_Cons_None:
  "(runPages process h (m # ms) = (None, h1)) =
   (\<exists>h'. process h m = (None, h') \<and> runPages process h' ms = (None, h1))"
  by (auto split: prod.splits option.splits)

lemma ContinuousRead_loop_pages:
  "loadImages n c = Some (ms, c1) \<Longrightarrow> m # ms = ps @ [p] \<Longrightarrow>
   runPages process h ps = (None, h1) \<Longrightarrow>
   ContinuousRead_loop process m h c = ContinuousRead_loop process p h1 c1"
proof (induction n arbitrary: c ms m ps h)
  case 0
  then show ?case by simp
next
  case (Suc n)
  from Suc.prems(1) obtain m2 c' ms' where m2: "loadImage c = Some (Inr m2, c')"
    and rest: "loadImages n c' = Some (ms', c1)" and ms: "ms = m2 # ms'"
    unfolding loadImages_Suc_iff by blast
  from Suc.prems(2) ms obtain ps' where ps: "ps = m # ps'" and tl: "m2 # ms' = ps' @ [p]"
    by (cases ps) auto
  from Suc.prems(3) [unfolded ps runPages_Cons_None]
  obtain h' where first: "process h m = (None, h')"
    and run: "runPages process h' ps' = (None, h1)"
    by blast
  have "ContinuousRead_loop process m h c = ContinuousRead_loop process m2 h' c'"
    using first m2 by (rule ContinuousRead_loop_next)
  also have "\<dots> = ContinuousRead_loop process p h1 c1"
    using rest tl run by (rule Suc.IH)
  finally show ?case .
qed

lemma ContinuousRead_first_error:
  "loadImage c = Some (Inl e, c') \<Longrightarrow> ContinuousRead process h c = Some (Some e, h, Cancel c')"
  by (simp add: ContinuousRead_def)

lemma ContinuousRead_pages:
  assumes "loadImages n c = Some (ps @ [p], c1)" and "runPages process h ps = (None, h1)"
  shows "ContinuousRead process h c =
           (case ContinuousRead_loop process p h1 c1 of
              None \<Rightarrow> None
            | Some (r, h', c'') \<Rightarrow> Some (r, h', Cancel c''))"
proof -
  from loadImages_length [OF assms(1)] obtain k where n: "n = Suc k" by (cases n) auto
  from assms(1) obtain m c' ms where m: "loadImage c = Some (Inr m, c')"
    and rest: "loadImages k c' = Some (ms, c1)" and ms: "ps @ [p] = m # ms"
    unfolding n loadImages_Suc_iff by blast
  have "ContinuousRead_loop process m h c' = ContinuousRead_loop process p h1 c1"
    using rest ms [symmetric] assms(2) by (rule ContinuousRead_loop_pages)
  with m show ?thesis by (simp add: ContinuousRead_def)
qed

lemma runPages_snoc:
  "runPages process h (ps @ [p]) =
     (case runPages process h ps of
        (Some e, h1) \<Rightarrow> (Some e, h1)
      | (None, h1) \<Rightarrow> process h1 p)"
  by (induction ps arbitrary: h) (auto split: prod.splits option.splits)

text \<open>
  C2. When the first fetch fails, \<open>ContinuousRead\<close> returns that error and the handler is
  not invoked (its state is unchanged). When \<open>n \<ge> 1\<close> pages are fetched, the next fetch
  fails with Empty and the handler succeeds on every page, the handler has been run on the
  \<open>n\<close> pages in order and no error is returned. When the handler fails on a page, its
  error is returned and the connection is as it was after fetching that page. A fetch
  failure other than Empty after the first page is returned.
\<close>

theorem ContinuousRead_pages_handler:
  "(loadImage c = Some (Inl e, c2) \<longrightarrow> ContinuousRead process h c = Some (Some e, h, Cancel c2))
   \<and> (loadImages n c = Some (ms, c1) \<and> 0 < n \<and> loadImage c1 = Some (Inl ErrEmpty, c2)
        \<and> runPages process h ms = (None, h')
      \<longrightarrow> ContinuousRead process h c = Some (None, h', Cancel c2) \<and> length ms = n)
   \<and> (loadImages n c = Some (ps @ [p], c1)
        \<and> runPages process h ps = (None, h1) \<and> process h1 p = (Some e, h')
      \<longrightarrow> ContinuousRead process h c = Some (Some e, h', Cancel c1) \<and> length (ps @ [p]) = n)
   \<and> (loadImages n c = Some (ms, c1) \<and> 0 < n \<and> loadImage c1 = Some (Inl e, c2) \<and> e \<noteq> ErrEmpty
        \<and> runPages process h ms = (None, h')
      \<longrightarrow> ContinuousRead process h c = Some (Some e, h', Cancel c2))"
proof (intro conjI impI; (elim conjE)?)
  assume "loadImage c = Some (Inl e, c2)"
  then show "ContinuousRead process h c = Some (Some e, h, Cancel c2)"
    by (rule ContinuousRead_first_error)
next
  assume a: "loadImages n c = Some (ms, c1)" "0 < n" "loadImage c1 = Some (Inl ErrEmpty, c2)"
    "runPages process h ms = (None, h')"
  from a(1,2) have "ms \<noteq> []" by (auto dest: loadImages_length)
  then obtain ps p where ms: "ms = ps @ [p]" by (metis rev_exhaust)
  from a(4) obtain h1 where run: "runPages process h ps = (None, h1)" and last: "process h1 p = (None, h')"
    unfolding ms runPages_snoc by (auto split: prod.splits option.splits)
  have "ContinuousRead_loop process p h1 c1 =
          Some (if ErrEmpty = ErrEmpty then None else Some ErrEmpty, h', c2)"
    using last a(3) by (rule ContinuousRead_loop_fetch_error)
  then show "ContinuousRead process h c = Some (None, h', Cancel c2)"
    using ContinuousRead_pages [OF a(1) [unfolded ms] run] by simp
  show "length ms = n" using a(1) by (rule loadImages_length)
next
  assume a: "loadImages n c = Some (ps @ [p], c1)" "runPages process h ps = (None, h1)"
    "process h1 p = (Some e, h')"
  have "ContinuousRead_loop process p h1 c1 = Some (Some e, h', c1)"
    using a(3) by (rule ContinuousRead_loop_handler_error)
  then show "ContinuousRead process h c = Some (Some e, h', Cancel c1)"
    using ContinuousRead_pages [OF a(1,2)] by simp
  show "length (ps @ [p]) = n" using a(1) by (rule loadImages_length)
next
  assume a: "loadImages n c = Some (ms, c1)" "0 < n" "loadImage c1 = Some (Inl e, c2)"
    "e \<noteq> ErrEmpty" "runPages process h ms = (None, h')"
  from a(1,2) have "ms \<noteq> []" by (auto dest: loadImages_length)
  then obtain ps p where ms: "ms = ps @ [p]" by (metis rev_exhaust)
  from a(5) obtain h1 where run: "runPages process h ps = (None, h1)" and last: "process h1 p = (None, h')"
    unfolding ms runPages_snoc by (auto split: prod.splits option.splits)
  have "ContinuousRead_loop process p h1 c1 =
          Some (if e = ErrEmpty then None else Some e, h', c2)"
    using last a(3) by (rule ContinuousRead_loop_fetch_error)
  then show "ContinuousRead process h c = Some (Some e, h', Cancel c2)"
    using ContinuousRead_pages [OF a(1) [unfolded ms] run] a(4) by simp
qed

theorem ContinuousRead_pages_handler_witness:
  "(loadImage emptyTray = Some (Inl ErrEmpty, emptyTray\<lparr>pos := 1\<rparr>)
    \<and> ContinuousRead logPage [] emptyTray = Some (Some ErrEmpty, [], Cancel (emptyTray\<lparr>pos := 1\<rparr>)))
   \<and> (loadImages 2 twoPages =
        Some ([assembled [grayPage 1], assembled [grayPage 2]], twoPages\<lparr>pos := 2\<rparr>)
    \<and> loadImage (twoPages\<lparr>pos := 2\<rparr>) = Some (Inl ErrEmpty, twoPages\<lparr>pos := 3\<rparr>)
    \<and> runPages logPage [] [assembled [grayPage 1], assembled [grayPage 2]] =
        (None, [assembled [grayPage 1], assembled [grayPage 2]])
    \<and> ContinuousRead logPage [] twoPages =
        Some (None, [assembled [grayPage 1], assembled [grayPage 2]], Cancel (twoPages\<lparr>pos := 3\<rparr>)))
   \<and> (loadImages 2 threePages =
        Some ([assembled [grayPage 1]] @ [assembled [grayPage 2]], threePages\<lparr>pos := 2\<rparr>)
    \<and> runPages failSecond [] [assembled [grayPage 1]] = (None, [assembled [grayPage 1]])
    \<and> failSecond [assembled [grayPage 1]] (assembled [grayPage 2]) =
        (Some ErrJammed, [assembled [grayPage 1], assembled [grayPage 2]])
    \<and> ContinuousRead failSecond [] threePages =
        Some (Some ErrJammed, [assembled [grayPage 1], assembled [grayPage 2]],
              Cancel (threePages\<lparr>pos := 2\<rparr>)))
   \<and> (loadImages 1 jamAfterOne = Some ([assembled [grayPage 1]], jamAfterOne\<lparr>pos := 1\<rparr>)
    \<and> loadImage (jamAfterOne\<lparr>pos := 1\<rparr>) = Some (Inl ErrJammed, jamAfterOne\<lparr>pos := 2\<rparr>)
    \<and> ContinuousRead logPage [] jamAfterOne =
        Some (Some ErrJammed, [assembled [grayPage 1]], Cancel (jamAfterOne\<lparr>pos := 2\<rparr>)))"
  using
    ContinuousRead_pages_handler [of emptyTray ErrEmpty "emptyTray\<lparr>pos := 1\<rparr>" logPage "[]"]
    ContinuousRead_pages_handler [of twoPages ErrEmpty "twoPages\<lparr>pos := 3\<rparr>" logPage "[]"
      2 "[assembled [grayPage 1], assembled [grayPage 2]]" "twoPages\<lparr>pos := 2\<rparr>"
      "[assembled [grayPage 1], assembled [grayPage 2]]"]
    ContinuousRead_pages_handler [of threePages ErrJammed _ failSecond "[]"
      2 _ "threePages\<lparr>pos := 2\<rparr>" "[assembled [grayPage 1], assembled [grayPage 2]]"
      "[assembled [grayPage 1]]" "assembled [grayPage 2]" "[assembled [grayPage 1]]"]
    ContinuousRead_pages_handler [of jamAfterOne ErrJammed "jamAfterOne\<lparr>pos := 2\<rparr>" logPage "[]"
      1 "[assembled [grayPage 1]]" "jamAfterOne\<lparr>pos := 1\<rparr>" "[assembled [grayPage 1]]"]
    twoPages_loads emptyTray_loads jamAfterOne_loads threePages_loads
  by (simp add: logPage_def failSecond_def)

subsection \<open>The deferred Cancel\<close>

lemma loadImage_loop_cancels:
  assumes "loadImage_loop m c = Some y"
  shows "cancels (snd y) = cancels c"
  by (rule loadImage_loop.raw_induct
        [where P = "\<lambda>m c y. cancels (snd y) = cancels c", OF _ assms])
     (auto simp: ReadFrame_def split: sum.splits if_splits)

lemma loadImage_cancels: "loadImage c = Some (r, c') \<Longrightarrow> cancels c' = cancels c"
  using loadImage_loop_cancels [of emptyImage c "(r, c')"] by (simp add: loadImage_def)

lemma ReadAvailableImages_loop_cancels:
  assumes "ReadAvailableImages_loop images c = Some y"
  shows "cancels (snd y) = cancels c"
  by (rule ReadAvailableImages_loop.raw_induct
        [where P = "\<lambda>images c y. cancels (snd y) = cancels c", OF _ assms])
     (auto split: option.splits sum.splits if_splits dest: loadImage_cancels)

lemma ContinuousRead_loop_cancels:
  assumes "ContinuousRead_loop process m h c = Some y"
  shows "cancels (snd (snd y)) = cancels c"
  by (rule ContinuousRead_loop.raw_induct
        [where P = "\<lambda>process m h c y. cancels (snd (snd y)) = cancels c", OF _ assms])
     (auto split: option.splits sum.splits if_splits prod.splits dest: loadImage_cancels)

lemma ReadAvailableImages_loop_cancels':
  "ReadAvailableImages_loop images c = Some (r, c') \<Longrightarrow> cancels c' = cancels c"
  using ReadAvailableImages_loop_cancels [of images c "(r, c')"] by simp

lemma ContinuousRead_loop_cancels':
  "ContinuousRead_loop process m h c = Some (e, h', c') \<Longrightarrow> cancels c' = cancels c"
  using ContinuousRead_loop_cancels [of process m h c "(e, h', c')"] by simp

text \<open>
  C8. Whenever \<open>ReadImage\<close>, \<open>ReadAvailableImages\<close> or \<open>ContinuousRead\<close> returns, with an
  error or without, it has called \<^verbatim>\<open>Cancel\<close> exactly once.
\<close>

theorem Cancel_once:
  "(ReadImage c = Some (r, c') \<longrightarrow> cancels c' = cancels c + 1)
   \<and> (ReadAvailableImages c = Some (rs, c') \<longrightarrow> cancels c' = cancels c + 1)
   \<and> (ContinuousRead process h c = Some (e, h', c') \<longrightarrow> cancels c' = cancels c + 1)"
proof (intro conjI impI)
  assume "ReadImage c = Some (r, c')"
  then show "cancels c' = cancels c + 1"
    by (auto simp: ReadImage_def Cancel_def split: option.splits prod.splits
        dest: loadImage_cancels)
next
  assume "ReadAvailableImages c = Some (rs, c')"
  then show "cancels c' = cancels c + 1"
    by (auto simp: ReadAvailableImages_def Cancel_def split: option.splits prod.splits
        dest: ReadAvailableImages_loop_cancels')
next
  assume a: "ContinuousRead process h c = Some (e, h', c')"
  show "cancels c' = cancels c + 1"
  proof (cases "loadImage c")
    case None
    with a show ?thesis by (simp add: ContinuousRead_def)
  next
    case (Some y)
    obtain r0 c0 where y: "y = (r0, c0)" by (cases y)
    have c0: "cancels c0 = cancels c" using Some y by (simp add: loadImage_cancels)
    show ?thesis
    proof (cases r0)
      case (Inl err)
      with a Some y c0 show ?thesis by (auto simp: ContinuousRead_def Cancel_def)
    next
      case (Inr m)
      with a Some y obtain c1 where loop: "ContinuousRead_loop process m h c0 = Some (e, h', c1)"
        and c': "c' = Cancel c1"
        by (auto simp: ContinuousRead_def split: option.splits)
      from loop have "cancels c1 = cancels c0" by (rule ContinuousRead_loop_cancels')
      with c0 c' show ?thesis by (simp add: Cancel_def)
    qed
  qed
qed

theorem Cancel_once_witness:
  "(ReadImage twoPages = Some (Inr (assembled [grayPage 1]), Cancel (twoPages\<lparr>pos := 1\<rparr>))
    \<and> cancels (Cancel (twoPages\<lparr>pos := 1\<rparr>)) = cancels twoPages + 1)
   \<and> (ReadImage emptyTray = Some (Inl ErrEmpty, Cancel (emptyTray\<lparr>pos := 1\<rparr>))
    \<and> cancels (Cancel (emptyTray\<lparr>pos := 1\<rparr>)) = cancels emptyTray + 1)
   \<and> (ReadAvailableImages twoPages =
        Some (Inr [assembled [grayPage 1], assembled [grayPage 2]], Cancel (twoPages\<lparr>pos := 3\<rparr>))
    \<and> cancels (Cancel (twoPages\<lparr>pos := 3\<rparr>)) = cancels twoPages + 1)
   \<and> (ContinuousRead logPage [] jamAfterOne =
        Some (Some ErrJammed, [assembled [grayPage 1]], Cancel (jamAfterOne\<lparr>pos := 2\<rparr>))
    \<and> cancels (Cancel (jamAfterOne\<lparr>pos := 2\<rparr>)) = cancels jamAfterOne + 1)"
proof -
  have ri: "ReadImage twoPages = Some (Inr (assembled [grayPage 1]), Cancel (twoPages\<lparr>pos := 1\<rparr>))"
    by (simp add: ReadImage_def twoPages_first)
  have re: "ReadImage emptyTray = Some (Inl ErrEmpty, Cancel (emptyTray\<lparr>pos := 1\<rparr>))"
    by (simp add: ReadImage_def emptyTray_loads)
  have ra: "ReadAvailableImages twoPages =
      Some (Inr [assembled [grayPage 1], assembled [grayPage 2]], Cancel (twoPages\<lparr>pos := 3\<rparr>))"
    using ReadAvailableImages_pages_then_error [OF twoPages_loads] by simp
  have loop: "ContinuousRead_loop logPage (assembled [grayPage 1]) [] (jamAfterOne\<lparr>pos := 1\<rparr>) =
      Some (Some ErrJammed, [assembled [grayPage 1]], jamAfterOne\<lparr>pos := 2\<rparr>)"
    using ContinuousRead_loop_fetch_error
      [of logPage "[]" "assembled [grayPage 1]" "[assembled [grayPage 1]]"
          "jamAfterOne\<lparr>pos := 1\<rparr>" ErrJammed "jamAfterOne\<lparr>pos := 2\<rparr>"]
      jamAfterOne_loads(2)
    by (simp add: logPage_def)
  have first: "loadImage jamAfterOne = Some (Inr (assembled [grayPage 1]), jamAfterOne\<lparr>pos := 1\<rparr>)"
    by (simp add: jamAfterOne_def feeder_simps loadImage_one_frame grayPage_simps)
  have cr: "ContinuousRead logPage [] jamAfterOne =
      Some (Some ErrJammed, [assembled [grayPage 1]], Cancel (jamAfterOne\<lparr>pos := 2\<rparr>))"
    using first loop by (simp add: ContinuousRead_def)
  show ?thesis
    using Cancel_once [of twoPages "Inr (assembled [grayPage 1])" "Cancel (twoPages\<lparr>pos := 1\<rparr>)"
        "Inl ErrEmpty" logPage "[]" None "[]"]
      Cancel_once [of emptyTray "Inl ErrEmpty" "Cancel (emptyTray\<lparr>pos := 1\<rparr>)"
        "Inl ErrEmpty" logPage "[]" None "[]"]
      Cancel_once [of twoPages "Inl ErrEmpty" "Cancel (twoPages\<lparr>pos := 3\<rparr>)"
        "Inr [assembled [grayPage 1], assembled [grayPage 2]]" logPage "[]" None "[]"]
      Cancel_once [of jamAfterOne "Inl ErrEmpty" "Cancel (jamAfterOne\<lparr>pos := 2\<rparr>)"
        "Inl ErrEmpty" logPage "[]" "Some ErrJammed" "[assembled [grayPage 1]]"]
      ri re ra cr
    by simp
qed

end
